theory Spec2Isabelle
  imports Complex_Main
begin

section \<open>Matcher: \<open>compare_faces\<close> (server.py, lines 150--160)\<close>

text \<open>
  The values a numpy \<open>float64\<close> scalar can take: a finite number, the two
  infinities and NaN. Finite values are carried as reals and the arithmetic below is
  exact: the rounding, overflow and underflow of the 64-bit format are not part of
  this model, so it says nothing on which pairs of vectors match. The facts about
  the engine hold for every verdict of the matcher; where a verdict is computed, it
  is that of \<open>[1]\<close> against \<open>[1]\<close>, whose arithmetic is exact in the 64-bit
  format too.
\<close>

datatype np_float = Fin real | PInf | NInf | NaN

text \<open>The exceptions the body of \<open>compare_faces\<close> can raise inside its \<open>try\<close>.\<close>

datatype py_exn = ValueError

text \<open>
  \<open>np.dot\<close> on two one-dimensional arrays: the sum of the products of the entries;
  it raises \<open>ValueError\<close> when the shapes are not aligned.
\<close>

definition np_dot :: "real list \<Rightarrow> real list \<Rightarrow> py_exn + real" where
  "np_dot a b =
     (if length a \<noteq> length b then Inl ValueError
      else Inr (sum_list (map (\<lambda>(x, y). x * y) (zip a b))))"

text \<open>\<open>np.linalg.norm\<close> on a one-dimensional array: the L2 norm.\<close>

definition np_norm :: "real list \<Rightarrow> real" where
  "np_norm a = sqrt (sum_list (map (\<lambda>x. x * x) a))"

text \<open>
  Division of numpy scalars: a zero divisor raises nothing (numpy warns and goes on),
  the quotient is NaN for \<open>0 / 0\<close> and a signed infinity otherwise.
\<close>

definition np_div :: "real \<Rightarrow> real \<Rightarrow> np_float" where
  "np_div x y =
     (if y = 0 then (if x = 0 then NaN else if 0 < x then PInf else NInf)
      else Fin (x / y))"

text \<open>\<open>similarity > threshold\<close>: every comparison with NaN is false.\<close>

fun np_gt :: "np_float \<Rightarrow> real \<Rightarrow> bool" where
  "np_gt (Fin x) t = (t < x)"
| "np_gt PInf t = True"
| "np_gt NInf t = False"
| "np_gt NaN t = False"

text \<open>The statement inside the \<open>try\<close>: the cosine similarity of the two arrays.\<close>

definition cosine_similarity :: "real list \<Rightarrow> real list \<Rightarrow> py_exn + np_float" where
  "cosine_similarity embedding1 embedding2 =
     (case np_dot embedding1 embedding2 of
        Inl e \<Rightarrow> Inl e
      | Inr d \<Rightarrow> Inr (np_div d (np_norm embedding1 * np_norm embedding2)))"

text \<open>
  \<open>compare_faces\<close>: the result of the \<open>try\<close> body compared with the threshold, and
  \<open>False\<close> from the \<open>except Exception\<close> branch. The result is a sum so that
  "no exception leaves the function" is a statement about its value.
\<close>

definition compare_faces :: "real list \<Rightarrow> real list \<Rightarrow> real \<Rightarrow> py_exn + bool" where
  "compare_faces embedding1 embedding2 threshold =
     (case cosine_similarity embedding1 embedding2 of
        Inl e \<Rightarrow> Inr False
      | Inr similarity \<Rightarrow> Inr (np_gt similarity threshold))"

text \<open>
  The default of the \<open>threshold\<close> parameter, which every caller uses: the
  \<open>float64\<close> value of the literal \<open>0.6\<close>.
\<close>

definition default_threshold :: real where
  "default_threshold = 5404319552844595 / 2 ^ 53"

section \<open>Attendance ledger: the \<open>db.attendance\<close> collection\<close>

text \<open>
  A document of \<open>db.attendance\<close>, with the fields the two writers set. The status
  and the provenance are the strings the code stores; \<open>timestamp\<close> is a reading of
  the clock; \<open>teacher_id\<close> is present only once an override has written the document.
\<close>

record attendance_doc =
  att_student_id :: string
  att_date :: string
  att_status :: string
  att_marked_by :: string
  att_timestamp :: nat
  att_teacher_id :: "string option"

text \<open>
  \<open>find_one({'student_id': .., 'date': ..})\<close>: the first document of the collection,
  in its natural order, that matches the filter.
\<close>

definition find_one :: "attendance_doc list \<Rightarrow> string \<Rightarrow> string \<Rightarrow> attendance_doc option" where
  "find_one coll sid d = List.find (\<lambda>r. att_student_id r = sid \<and> att_date r = d) coll"

text \<open>
  \<open>update_one(filter, {'$set': ..}, upsert=True)\<close>: the \<open>$set\<close> fields are written
  into the first matching document, whose other fields stay; when no document matches,
  one is inserted, made of the filter's fields and the \<open>$set\<close> fields.
\<close>

fun update_one ::
  "string \<Rightarrow> string \<Rightarrow> (attendance_doc \<Rightarrow> attendance_doc) \<Rightarrow> attendance_doc list
     \<Rightarrow> attendance_doc list" where
  "update_one sid d upd [] =
     [upd \<lparr>att_student_id = sid, att_date = d, att_status = [], att_marked_by = [],
           att_timestamp = 0, att_teacher_id = None\<rparr>]"
| "update_one sid d upd (r # rs) =
     (if att_student_id r = sid \<and> att_date r = d then upd r # rs
      else r # update_one sid d upd rs)"

text \<open>The \<open>$set\<close> document of the auto-matching path (lines 258--264).\<close>

definition set_auto :: "string \<Rightarrow> string \<Rightarrow> nat \<Rightarrow> attendance_doc \<Rightarrow> attendance_doc" where
  "set_auto sid today now r =
     r\<lparr>att_student_id := sid, att_date := today, att_status := ''present'',
       att_marked_by := ''auto'', att_timestamp := now\<rparr>"

text \<open>The \<open>$set\<close> document of the override path (lines 476--483).\<close>

definition set_teacher ::
  "string \<Rightarrow> string \<Rightarrow> string \<Rightarrow> string \<Rightarrow> nat \<Rightarrow> attendance_doc \<Rightarrow> attendance_doc" where
  "set_teacher sid d st uid now r =
     r\<lparr>att_student_id := sid, att_date := d, att_status := st,
       att_marked_by := ''teacher'', att_teacher_id := Some uid, att_timestamp := now\<rparr>"

section \<open>Manual override: \<open>override_attendance\<close> (lines 468--488)\<close>

text \<open>The request body (\<open>AttendanceOverride\<close>, lines 72--75): three strings.\<close>

record attendance_override =
  ao_student_id :: string
  ao_date :: string
  ao_status :: string

text \<open>The decoded token (\<open>current_user\<close>).\<close>

record current_user =
  cu_role :: string
  cu_user_id :: string

datatype http_error = HTTPException nat

definition override_attendance ::
  "attendance_override \<Rightarrow> current_user \<Rightarrow> nat \<Rightarrow> attendance_doc list
     \<Rightarrow> http_error + attendance_doc list" where
  "override_attendance data user now coll =
     (if cu_role user \<noteq> ''teacher'' then Inl (HTTPException 403)
      else Inr (update_one (ao_student_id data) (ao_date data)
                  (set_teacher (ao_student_id data) (ao_date data) (ao_status data)
                     (cu_user_id user) now) coll))"

section \<open>Recognition engine: \<open>CCTVProcessor._process_frame\<close> (lines 215--272)\<close>

text \<open>A document of \<open>db.face_encodings\<close>: the fields the engine reads.\<close>

record face_doc =
  fe_student_id :: string
  fe_embeddings :: "real list list"

text \<open>
  What a call of \<open>_process_frame\<close> does beyond changing the ledger: calls of the
  external detector and writes to the ledger, in order.
\<close>

datatype effect = DetectorCall | LedgerWrite string string

type_synonym engine_state = "attendance_doc list \<times> effect list"

text \<open>\<open>face_encodings_cursor.to_list(length=1000)\<close> on \<open>find({})\<close>.\<close>

definition load_snapshot :: "face_doc list \<Rightarrow> face_doc list" where
  "load_snapshot face_encodings = take 1000 face_encodings"

text \<open>\<open>existing_attendance and existing_attendance.get('status') == 'present'\<close>.\<close>

definition already_present :: "attendance_doc option \<Rightarrow> bool" where
  "already_present existing = (case existing of None \<Rightarrow> False | Some r \<Rightarrow> att_status r = ''present'')"

text \<open>The \<open>update_one\<close> call of lines 255--267.\<close>

definition mark_present :: "string \<Rightarrow> string \<Rightarrow> nat \<Rightarrow> engine_state \<Rightarrow> engine_state" where
  "mark_present sid today now s =
     (update_one sid today (set_auto sid today now) (fst s), snd s @ [LedgerWrite sid today])"

text \<open>
  The innermost loop (lines 252--269), over the stored embeddings of one document:
  the first match writes the record and leaves the loop. An exception leaves every
  loop; the first component of the result carries it.
\<close>

fun compare_stored ::
  "string \<Rightarrow> string \<Rightarrow> nat \<Rightarrow> real list \<Rightarrow> real list list \<Rightarrow> engine_state
     \<Rightarrow> py_exn option \<times> engine_state" where
  "compare_stored sid today now detected_embedding [] s = (None, s)"
| "compare_stored sid today now detected_embedding (stored_embedding # rest) s =
     (case compare_faces detected_embedding stored_embedding default_threshold of
        Inl e \<Rightarrow> (Some e, s)
      | Inr matched \<Rightarrow>
          if matched then (None, mark_present sid today now s)
          else compare_stored sid today now detected_embedding rest s)"

text \<open>The loop over the stored documents (lines 239--269).\<close>

fun match_stored ::
  "string \<Rightarrow> nat \<Rightarrow> real list \<Rightarrow> face_doc list \<Rightarrow> engine_state
     \<Rightarrow> py_exn option \<times> engine_state" where
  "match_stored today now detected_embedding [] s = (None, s)"
| "match_stored today now detected_embedding (stored # rest) s =
     (if already_present (find_one (fst s) (fe_student_id stored) today)
      then match_stored today now detected_embedding rest s
      else
        (case compare_stored (fe_student_id stored) today now detected_embedding
                (fe_embeddings stored) s of
           (Some e, s') \<Rightarrow> (Some e, s')
         | (None, s') \<Rightarrow> match_stored today now detected_embedding rest s'))"

text \<open>The loop over the detected faces (lines 235--269).\<close>

fun match_detected ::
  "string \<Rightarrow> nat \<Rightarrow> real list list \<Rightarrow> face_doc list \<Rightarrow> engine_state
     \<Rightarrow> py_exn option \<times> engine_state" where
  "match_detected today now [] face_encodings_list s = (None, s)"
| "match_detected today now (detected_embedding # rest) face_encodings_list s =
     (case match_stored today now detected_embedding face_encodings_list s of
        (Some e, s') \<Rightarrow> (Some e, s')
      | (None, s') \<Rightarrow> match_detected today now rest face_encodings_list s')"

text \<open>
  \<open>_process_frame\<close>. The detector (\<open>DeepFace.represent\<close> with
  \<open>enforce_detection=True\<close>) is external: \<open>detect frame\<close> is \<open>None\<close> when it
  raises, else the embeddings of the faces found. \<open>today\<close> and \<open>now\<close> are the
  readings of the clock. The outer \<open>except\<close> swallows any exception, so the result
  is the ledger as the loops left it, with the effects of this call.
\<close>

definition process_frame ::
  "('f \<Rightarrow> real list list option) \<Rightarrow> string \<Rightarrow> nat \<Rightarrow> face_doc list \<Rightarrow> 'f
     \<Rightarrow> attendance_doc list \<Rightarrow> engine_state" where
  "process_frame detect today now face_encodings frame coll =
     (let face_encodings_list = load_snapshot face_encodings in
      if face_encodings_list = [] then (coll, [])
      else
        (case detect frame of
           None \<Rightarrow> (coll, [DetectorCall])
         | Some detected_embeddings \<Rightarrow>
             snd (match_detected today now detected_embeddings face_encodings_list
                    (coll, [DetectorCall]))))"

section \<open>Frame sampler: \<open>CCTVProcessor._process_stream\<close> (lines 184--213)\<close>

text \<open>
  What one pass of the \<open>while\<close> loop meets: a frame, a failed read
  (\<open>ret\<close> false), or an exception raised in the body. The list of these is the run of
  the loop while \<open>is_running\<close> holds; at its end the flag has been cleared.
\<close>

datatype 'f read_result = Frame 'f | NoFrame | ReadRaises

text \<open>
  The calls the sampler makes, in order. Capture handles are numbered in the order
  \<open>cv2.VideoCapture\<close> creates them.
\<close>

datatype 'f stream_event =
  Open string nat | Read nat | Sleep nat | Forward 'f | Release nat

text \<open>
  The \<open>while\<close> loop with its \<open>finally\<close>. \<open>cap\<close> is the handle the variable
  holds, \<open>frame_count\<close> the counter. \<open>stride\<close> stands for the literal 30 of
  line 201; a stride of 0 makes \<open>%\<close> raise, which ends the loop like any exception.
\<close>

fun stream_loop ::
  "nat \<Rightarrow> string \<Rightarrow> nat \<Rightarrow> nat \<Rightarrow> 'f read_result list \<Rightarrow> 'f stream_event list" where
  "stream_loop stride url cap frame_count [] = [Release cap]"
| "stream_loop stride url cap frame_count (NoFrame # rest) =
     Read cap # Sleep 5 # Open url (Suc cap) # stream_loop stride url (Suc cap) frame_count rest"
| "stream_loop stride url cap frame_count (ReadRaises # rest) = [Read cap, Release cap]"
| "stream_loop stride url cap frame_count (Frame frame # rest) =
     Read cap #
     (if stride = 0 then [Release cap]
      else if Suc frame_count mod stride \<noteq> 0
        then stream_loop stride url cap (Suc frame_count) rest
      else Forward frame # Sleep 1 # stream_loop stride url cap (Suc frame_count) rest)"

definition process_stream_stride :: "nat \<Rightarrow> string \<Rightarrow> 'f read_result list \<Rightarrow> 'f stream_event list" where
  "process_stream_stride stride url reads = Open url 0 # stream_loop stride url 0 0 reads"

definition frame_stride :: nat where
  "frame_stride = 30"

definition process_stream :: "string \<Rightarrow> 'f read_result list \<Rightarrow> 'f stream_event list" where
  "process_stream url reads = process_stream_stride frame_stride url reads"

text \<open>Readings of a run of the sampler.\<close>

fun forwarded :: "'f stream_event list \<Rightarrow> 'f list" where
  "forwarded [] = []"
| "forwarded (Forward frame # es) = frame # forwarded es"
| "forwarded (e # es) = forwarded es"

fun opened :: "'f stream_event list \<Rightarrow> nat list" where
  "opened [] = []"
| "opened (Open url h # es) = h # opened es"
| "opened (e # es) = opened es"

fun opened_urls :: "'f stream_event list \<Rightarrow> string list" where
  "opened_urls [] = []"
| "opened_urls (Open url h # es) = url # opened_urls es"
| "opened_urls (e # es) = opened_urls es"

fun released :: "'f stream_event list \<Rightarrow> nat list" where
  "released [] = []"
| "released (Release h # es) = h # released es"
| "released (e # es) = released es"

fun reads_made :: "'f stream_event list \<Rightarrow> nat" where
  "reads_made [] = 0"
| "reads_made (Read h # es) = Suc (reads_made es)"
| "reads_made (e # es) = reads_made es"

fun backoffs :: "'f stream_event list \<Rightarrow> nat" where
  "backoffs [] = 0"
| "backoffs (Sleep n # es) = (if n = 5 then Suc (backoffs es) else backoffs es)"
| "backoffs (e # es) = backoffs es"

text \<open>Every forwarded frame is followed at once by a sleep of one second.\<close>

fun sleeps_after_forward :: "'f stream_event list \<Rightarrow> bool" where
  "sleeps_after_forward [] = True"
| "sleeps_after_forward (Forward frame # es) = (take 1 es = [Sleep 1] \<and> sleeps_after_forward es)"
| "sleeps_after_forward (e # es) = sleeps_after_forward es"

text \<open>The frames the capture handle delivered, up to an exception that ends the loop.\<close>

fun delivered :: "'f read_result list \<Rightarrow> 'f list" where
  "delivered [] = []"
| "delivered (Frame frame # rest) = frame # delivered rest"
| "delivered (NoFrame # rest) = delivered rest"
| "delivered (ReadRaises # rest) = []"

section \<open>Facts about the ledger and the engine\<close>

lemma find_one_update_one_other:
  assumes "sid \<noteq> i \<or> dd \<noteq> d"
    and "\<And>r. att_student_id (upd r) = sid \<and> att_date (upd r) = dd"
  shows "find_one (update_one sid dd upd coll) i d = find_one coll i d"
  using assms by (induction coll) (auto simp: find_one_def)

lemma find_one_update_one_same:
  assumes "\<And>r. att_student_id (upd r) = sid \<and> att_date (upd r) = dd"
  shows "find_one (update_one sid dd upd coll) sid dd =
         Some (upd (case find_one coll sid dd of
                      Some r \<Rightarrow> r
                    | None \<Rightarrow> \<lparr>att_student_id = sid, att_date = dd, att_status = [],
                               att_marked_by = [], att_timestamp = 0, att_teacher_id = None\<rparr>))"
  using assms by (induction coll) (auto simp: find_one_def)

lemma set_auto_key:
  "att_student_id (set_auto sid today now r) = sid \<and> att_date (set_auto sid today now r) = today"
  by (simp add: set_auto_def)

lemma set_teacher_key:
  "att_student_id (set_teacher sid d st uid now r) = sid
   \<and> att_date (set_teacher sid d st uid now r) = d"
  by (simp add: set_teacher_def)

lemma mark_present_other:
  assumes "sid \<noteq> i \<or> today \<noteq> d"
  shows "find_one (fst (mark_present sid today now s)) i d = find_one (fst s) i d
       \<and> (LedgerWrite i d \<in> set (snd (mark_present sid today now s))
            \<longleftrightarrow> LedgerWrite i d \<in> set (snd s))"
  using assms find_one_update_one_other [OF assms, of "set_auto sid today now" "fst s"]
  by (auto simp: mark_present_def set_auto_key)

lemma compare_stored_other:
  assumes "sid \<noteq> i \<or> today \<noteq> d"
    and "compare_stored sid today now de ses s = (e, s')"
  shows "find_one (fst s') i d = find_one (fst s) i d
       \<and> (LedgerWrite i d \<in> set (snd s') \<longleftrightarrow> LedgerWrite i d \<in> set (snd s))"
  using assms
proof (induction ses)
  case Nil
  then show ?case by simp
next
  case (Cons se ses)
  show ?case
  proof (cases "compare_faces de se default_threshold")
    case (Inl x)
    with Cons.prems show ?thesis by simp
  next
    case (Inr matched)
    show ?thesis
    proof (cases matched)
      case True
      with Inr Cons.prems have "s' = mark_present sid today now s" by simp
      with mark_present_other [OF Cons.prems(1)] show ?thesis by simp
    next
      case False
      with Inr Cons show ?thesis by simp
    qed
  qed
qed

text \<open>
  The condition under which the engine cannot touch the record of \<open>(i, d)\<close>: the
  identity is not in the snapshot, or the day is another one, or the record is present.
\<close>

lemma match_stored_keeps:
  assumes "i \<notin> fe_student_id ` set encs \<or> today \<noteq> d \<or> already_present (find_one (fst s) i d)"
    and "match_stored today now de encs s = (e, s')"
  shows "find_one (fst s') i d = find_one (fst s) i d
       \<and> (LedgerWrite i d \<in> set (snd s') \<longleftrightarrow> LedgerWrite i d \<in> set (snd s))"
  using assms
proof (induction encs arbitrary: s)
  case Nil
  then show ?case by simp
next
  case (Cons stored encs)
  show ?case
  proof (cases "already_present (find_one (fst s) (fe_student_id stored) today)")
    case True
    with Cons.prems have "match_stored today now de encs s = (e, s')" by simp
    moreover from Cons.prems(1)
    have "i \<notin> fe_student_id ` set encs \<or> today \<noteq> d \<or> already_present (find_one (fst s) i d)"
      by auto
    ultimately show ?thesis using Cons.IH by blast
  next
    case False
    obtain e1 s1 where c:
      "compare_stored (fe_student_id stored) today now de (fe_embeddings stored) s = (e1, s1)"
      by (cases "compare_stored (fe_student_id stored) today now de (fe_embeddings stored) s")
    from False Cons.prems(1) have other: "fe_student_id stored \<noteq> i \<or> today \<noteq> d"
      by auto
    note step = compare_stored_other [OF other c]
    show ?thesis
    proof (cases e1)
      case (Some x)
      with False c Cons.prems have "s' = s1" by simp
      with step show ?thesis by simp
    next
      case None
      with False c Cons.prems have rest: "match_stored today now de encs s1 = (e, s')" by simp
      from Cons.prems(1) step
      have "i \<notin> fe_student_id ` set encs \<or> today \<noteq> d \<or> already_present (find_one (fst s1) i d)"
        by auto
      from Cons.IH [OF this rest] step show ?thesis by simp
    qed
  qed
qed

lemma match_detected_keeps:
  assumes "i \<notin> fe_student_id ` set encs \<or> today \<noteq> d \<or> already_present (find_one (fst s) i d)"
    and "match_detected today now des encs s = (e, s')"
  shows "find_one (fst s') i d = find_one (fst s) i d
       \<and> (LedgerWrite i d \<in> set (snd s') \<longleftrightarrow> LedgerWrite i d \<in> set (snd s))"
  using assms
proof (induction des arbitrary: s)
  case Nil
  then show ?case by simp
next
  case (Cons de des)
  obtain e1 s1 where m: "match_stored today now de encs s = (e1, s1)"
    by (cases "match_stored today now de encs s")
  note step = match_stored_keeps [OF Cons.prems(1) m]
  show ?case
  proof (cases e1)
    case (Some x)
    with m Cons.prems have "s' = s1" by simp
    with step show ?thesis by simp
  next
    case None
    with m Cons.prems have rest: "match_detected today now des encs s1 = (e, s')" by simp
    from Cons.prems(1) step
    have "i \<notin> fe_student_id ` set encs \<or> today \<noteq> d \<or> already_present (find_one (fst s1) i d)"
      by auto
    from Cons.IH [OF this rest] step show ?thesis by simp
  qed
qed

lemma process_frame_keeps:
  assumes "i \<notin> fe_student_id ` set (load_snapshot face_encodings) \<or> today \<noteq> d
           \<or> already_present (find_one coll i d)"
  shows "find_one (fst (process_frame detect today now face_encodings frame coll)) i d
           = find_one coll i d
       \<and> LedgerWrite i d \<notin> set (snd (process_frame detect today now face_encodings frame coll))"
proof (cases "load_snapshot face_encodings = []")
  case True
  then show ?thesis by (simp add: process_frame_def)
next
  case False
  show ?thesis
  proof (cases "detect frame")
    case None
    with False show ?thesis by (simp add: process_frame_def)
  next
    case (Some des)
    obtain e s' where m:
      "match_detected today now des (load_snapshot face_encodings) (coll, [DetectorCall]) = (e, s')"
      by (cases "match_detected today now des (load_snapshot face_encodings) (coll, [DetectorCall])")
    from assms have "i \<notin> fe_student_id ` set (load_snapshot face_encodings) \<or> today \<noteq> d
           \<or> already_present (find_one (fst (coll, [DetectorCall])) i d)" by simp
    from match_detected_keeps [OF this m] have
      "find_one (fst s') i d = find_one coll i d \<and> LedgerWrite i d \<notin> set (snd s')"
      by simp
    moreover from False Some m
    have "process_frame detect today now face_encodings frame coll = s'"
      by (simp add: process_frame_def)
    ultimately show ?thesis by simp
  qed
qed

lemma compare_faces_unit: "compare_faces [1] [1] default_threshold = Inr True"
  by (simp add: compare_faces_def cosine_similarity_def np_dot_def np_norm_def np_div_def
      default_threshold_def)

text \<open>
  Claim C1. When the record of \<open>(i, d)\<close> has status \<open>present\<close>, processing a frame
  leaves \<open>find_one\<close> for \<open>(i, d)\<close> returning the same document (status, provenance
  and timestamp included), and the call makes no write for \<open>(i, d)\<close>.
\<close>

theorem dedup_present_unchanged:
  assumes "find_one coll i d = Some r" and "att_status r = ''present''"
  shows "find_one (fst (process_frame detect today now face_encodings frame coll)) i d = Some r
       \<and> LedgerWrite i d \<notin> set (snd (process_frame detect today now face_encodings frame coll))"
proof -
  from assms have "already_present (find_one coll i d)"
    by (simp add: already_present_def)
  then show ?thesis
    using process_frame_keeps [of i face_encodings today d coll detect now frame] assms(1)
    by simp
qed

text \<open>A frame whose face matches \<open>S1\<close>, who is already present that day.\<close>

theorem dedup_present_unchanged_witness:
  "find_one [\<lparr>att_student_id = ''S1'', att_date = ''2025-01-06'', att_status = ''present'',
              att_marked_by = ''auto'', att_timestamp = 1, att_teacher_id = None\<rparr>]
     ''S1'' ''2025-01-06''
   = Some \<lparr>att_student_id = ''S1'', att_date = ''2025-01-06'', att_status = ''present'',
           att_marked_by = ''auto'', att_timestamp = 1, att_teacher_id = None\<rparr>
   \<and> find_one (fst (process_frame Some ''2025-01-06'' 2
        [\<lparr>fe_student_id = ''S1'', fe_embeddings = [[1]]\<rparr>] [[1]]
        [\<lparr>att_student_id = ''S1'', att_date = ''2025-01-06'', att_status = ''present'',
              att_marked_by = ''auto'', att_timestamp = 1, att_teacher_id = None\<rparr>]))
     ''S1'' ''2025-01-06''
   = Some \<lparr>att_student_id = ''S1'', att_date = ''2025-01-06'', att_status = ''present'',
           att_marked_by = ''auto'', att_timestamp = 1, att_teacher_id = None\<rparr>
   \<and> LedgerWrite ''S1'' ''2025-01-06'' \<notin> set (snd (process_frame Some ''2025-01-06'' 2
        [\<lparr>fe_student_id = ''S1'', fe_embeddings = [[1]]\<rparr>] [[1]]
        [\<lparr>att_student_id = ''S1'', att_date = ''2025-01-06'', att_status = ''present'',
              att_marked_by = ''auto'', att_timestamp = 1, att_teacher_id = None\<rparr>]))"
proof -
  have f: "find_one [\<lparr>att_student_id = ''S1'', att_date = ''2025-01-06'', att_status = ''present'',
              att_marked_by = ''auto'', att_timestamp = 1, att_teacher_id = None\<rparr>]
     ''S1'' ''2025-01-06''
   = Some \<lparr>att_student_id = ''S1'', att_date = ''2025-01-06'', att_status = ''present'',
           att_marked_by = ''auto'', att_timestamp = 1, att_teacher_id = None\<rparr>"
    by (simp add: find_one_def)
  from dedup_present_unchanged [OF f, of Some "''2025-01-06''" 2
        "[\<lparr>fe_student_id = ''S1'', fe_embeddings = [[1]]\<rparr>]" "[[1]]"] f
  show ?thesis by simp
qed

text \<open>
  Claim C2 as stated fails: a teacher's override sets \<open>S1\<close> absent, and the next frame
  with a matching face rewrites the record to \<open>present\<close>, marked \<open>auto\<close>, with a new
  timestamp.
\<close>

theorem override_absent_counterexample:
  "override_attendance
     \<lparr>ao_student_id = ''S1'', ao_date = ''2025-01-06'', ao_status = ''absent''\<rparr>
     \<lparr>cu_role = ''teacher'', cu_user_id = ''T1''\<rparr> 1 []
   = Inr [\<lparr>att_student_id = ''S1'', att_date = ''2025-01-06'', att_status = ''absent'',
           att_marked_by = ''teacher'', att_timestamp = 1, att_teacher_id = Some ''T1''\<rparr>]
   \<and> process_frame Some ''2025-01-06'' 2
        [\<lparr>fe_student_id = ''S1'', fe_embeddings = [[1]]\<rparr>] [[1]]
        [\<lparr>att_student_id = ''S1'', att_date = ''2025-01-06'', att_status = ''absent'',
           att_marked_by = ''teacher'', att_timestamp = 1, att_teacher_id = Some ''T1''\<rparr>]
   = ([\<lparr>att_student_id = ''S1'', att_date = ''2025-01-06'', att_status = ''present'',
         att_marked_by = ''auto'', att_timestamp = 2, att_teacher_id = Some ''T1''\<rparr>],
      [DetectorCall, LedgerWrite ''S1'' ''2025-01-06''])"
  by (simp add: override_attendance_def set_teacher_def process_frame_def load_snapshot_def
      find_one_def already_present_def compare_faces_unit mark_present_def set_auto_def)

text \<open>
  Claim C2, amended. An override by a teacher is always applied, whatever the record
  was: afterwards the record of its key has the override's status, is marked
  \<open>teacher\<close> and carries the override's timestamp. When the override's status is
  \<open>present\<close>, processing a frame afterwards leaves that record unchanged and makes no
  write for its key.
\<close>

theorem override_precedence:
  assumes "cu_role user = ''teacher''"
  shows "\<exists>coll' r. override_attendance data user now coll = Inr coll'
       \<and> find_one coll' (ao_student_id data) (ao_date data) = Some r
       \<and> att_status r = ao_status data \<and> att_marked_by r = ''teacher'' \<and> att_timestamp r = now
       \<and> (ao_status data = ''present'' \<longrightarrow>
            find_one (fst (process_frame detect today now' face_encodings frame coll'))
              (ao_student_id data) (ao_date data) = Some r
          \<and> LedgerWrite (ao_student_id data) (ao_date data)
              \<notin> set (snd (process_frame detect today now' face_encodings frame coll')))"
proof -
  define upd where "upd = set_teacher (ao_student_id data) (ao_date data) (ao_status data)
                            (cu_user_id user) now"
  define coll' where "coll' = update_one (ao_student_id data) (ao_date data) upd coll"
  have key: "\<And>r. att_student_id (upd r) = ao_student_id data \<and> att_date (upd r) = ao_date data"
    by (simp add: upd_def set_teacher_key)
  from find_one_update_one_same [of upd, OF key] obtain r0 where
    found: "find_one coll' (ao_student_id data) (ao_date data) = Some (upd r0)"
    by (auto simp: coll'_def)
  have applied: "override_attendance data user now coll = Inr coll'"
    using assms by (simp add: override_attendance_def coll'_def upd_def)
  have fields: "att_status (upd r0) = ao_status data \<and> att_marked_by (upd r0) = ''teacher''
                \<and> att_timestamp (upd r0) = now"
    by (simp add: upd_def set_teacher_def)
  have kept: "ao_status data = ''present'' \<longrightarrow>
            find_one (fst (process_frame detect today now' face_encodings frame coll'))
              (ao_student_id data) (ao_date data) = Some (upd r0)
          \<and> LedgerWrite (ao_student_id data) (ao_date data)
              \<notin> set (snd (process_frame detect today now' face_encodings frame coll'))"
  proof
    assume "ao_status data = ''present''"
    with found fields
    have "already_present (find_one coll' (ao_student_id data) (ao_date data))"
      by (simp add: already_present_def)
    then show "find_one (fst (process_frame detect today now' face_encodings frame coll'))
              (ao_student_id data) (ao_date data) = Some (upd r0)
          \<and> LedgerWrite (ao_student_id data) (ao_date data)
              \<notin> set (snd (process_frame detect today now' face_encodings frame coll'))"
      using process_frame_keeps [of "ao_student_id data" face_encodings today "ao_date data"
          coll' detect now' frame] found
      by simp
  qed
  from applied found fields kept show ?thesis by blast
qed

text \<open>A teacher turns an absent record into a present one; a matching frame follows.\<close>

theorem override_precedence_witness:
  "cu_role \<lparr>cu_role = ''teacher'', cu_user_id = ''T1''\<rparr> = ''teacher''
   \<and> (\<exists>coll' r.
        override_attendance
          \<lparr>ao_student_id = ''S1'', ao_date = ''2025-01-06'', ao_status = ''present''\<rparr>
          \<lparr>cu_role = ''teacher'', cu_user_id = ''T1''\<rparr> 5
          [\<lparr>att_student_id = ''S1'', att_date = ''2025-01-06'', att_status = ''absent'',
             att_marked_by = ''teacher'', att_timestamp = 1, att_teacher_id = Some ''T1''\<rparr>]
          = Inr coll'
      \<and> find_one coll' ''S1'' ''2025-01-06'' = Some r
      \<and> att_status r = ''present'' \<and> att_marked_by r = ''teacher'' \<and> att_timestamp r = 5
      \<and> find_one (fst (process_frame Some ''2025-01-06'' 6
            [\<lparr>fe_student_id = ''S1'', fe_embeddings = [[1]]\<rparr>] [[1]] coll'))
          ''S1'' ''2025-01-06'' = Some r
      \<and> LedgerWrite ''S1'' ''2025-01-06'' \<notin> set (snd (process_frame Some ''2025-01-06'' 6
            [\<lparr>fe_student_id = ''S1'', fe_embeddings = [[1]]\<rparr>] [[1]] coll')))"
  using override_precedence [of "\<lparr>cu_role = ''teacher'', cu_user_id = ''T1''\<rparr>"
      "\<lparr>ao_student_id = ''S1'', ao_date = ''2025-01-06'', ao_status = ''present''\<rparr>" 5
      "[\<lparr>att_student_id = ''S1'', att_date = ''2025-01-06'', att_status = ''absent'',
         att_marked_by = ''teacher'', att_timestamp = 1, att_teacher_id = Some ''T1''\<rparr>]"
      Some "''2025-01-06''" 6 "[\<lparr>fe_student_id = ''S1'', fe_embeddings = [[1]]\<rparr>]" "[[1]]"]
  by simp

text \<open>
  Claim C8. With no document in \<open>db.face_encodings\<close>, processing a frame returns the
  ledger as it was with no effect at all: the detector is not called and nothing is
  written.
\<close>

theorem empty_store_discards_frame:
  "process_frame detect today now [] frame coll = (coll, [])
   \<and> DetectorCall \<notin> set (snd (process_frame detect today now [] frame coll))
   \<and> fst (process_frame detect today now [] frame coll) = coll"
  by (simp add: process_frame_def load_snapshot_def)

text \<open>An empty store and a frame with one face.\<close>

theorem empty_store_discards_frame_witness:
  "process_frame Some ''2025-01-06'' 2 [] [[1 :: real]] [] = ([], [])"
  using empty_store_discards_frame [of Some "''2025-01-06''" 2 "[[1]]" "[]"]
  by simp

text \<open>
  Claim C9. The auto path writes \<open>present\<close> and \<open>auto\<close>, the override path writes
  \<open>teacher\<close>; but the override stores the status of the request as it comes, so a
  status outside \<open>present\<close> and \<open>absent\<close> reaches the ledger.
\<close>

theorem override_stores_unchecked_status:
  "override_attendance
     \<lparr>ao_student_id = ''S1'', ao_date = ''2025-01-06'', ao_status = ''late''\<rparr>
     \<lparr>cu_role = ''teacher'', cu_user_id = ''T1''\<rparr> 1 []
   = Inr [\<lparr>att_student_id = ''S1'', att_date = ''2025-01-06'', att_status = ''late'',
           att_marked_by = ''teacher'', att_timestamp = 1, att_teacher_id = Some ''T1''\<rparr>]
   \<and> ''late'' \<noteq> ''present'' \<and> ''late'' \<noteq> ''absent''"
  by (simp add: override_attendance_def set_teacher_def)

text \<open>
  Claim C10. The snapshot holds at most 1000 documents; processing a frame depends on
  the first 1000 documents of \<open>db.face_encodings\<close> only; and an identity with no
  document among them keeps its record for any day, with no write for it.
\<close>

theorem snapshot_limit:
  "length (load_snapshot face_encodings) \<le> 1000
   \<and> process_frame detect today now face_encodings frame coll
       = process_frame detect today now (take 1000 face_encodings) frame coll
   \<and> (i \<notin> fe_student_id ` set (take 1000 face_encodings) \<longrightarrow>
        find_one (fst (process_frame detect today now face_encodings frame coll)) i d
          = find_one coll i d
      \<and> LedgerWrite i d
          \<notin> set (snd (process_frame detect today now face_encodings frame coll)))"
proof -
  have bound: "length (load_snapshot face_encodings) \<le> 1000"
    by (simp add: load_snapshot_def)
  have only: "process_frame detect today now face_encodings frame coll
       = process_frame detect today now (take 1000 face_encodings) frame coll"
    by (simp add: process_frame_def load_snapshot_def)
  have beyond: "i \<notin> fe_student_id ` set (take 1000 face_encodings) \<longrightarrow>
        find_one (fst (process_frame detect today now face_encodings frame coll)) i d
          = find_one coll i d
      \<and> LedgerWrite i d
          \<notin> set (snd (process_frame detect today now face_encodings frame coll))"
    using process_frame_keeps [of i face_encodings today d coll detect now frame]
    by (simp add: load_snapshot_def)
  from bound only beyond show ?thesis by blast
qed

text \<open>The document of \<open>S1\<close> is the 1001st; the frame shows the stored embedding itself.\<close>

theorem snapshot_limit_witness:
  "''S1'' \<notin> fe_student_id ` set (take 1000
       (replicate 1000 \<lparr>fe_student_id = ''S0'', fe_embeddings = [[0, 1]]\<rparr>
        @ [\<lparr>fe_student_id = ''S1'', fe_embeddings = [[1, 0]]\<rparr>]))
   \<and> find_one (fst (process_frame Some ''2025-01-06'' 2
       (replicate 1000 \<lparr>fe_student_id = ''S0'', fe_embeddings = [[0, 1]]\<rparr>
        @ [\<lparr>fe_student_id = ''S1'', fe_embeddings = [[1, 0]]\<rparr>]) [[1, 0]] []))
       ''S1'' ''2025-01-06'' = None
   \<and> LedgerWrite ''S1'' ''2025-01-06'' \<notin> set (snd (process_frame Some ''2025-01-06'' 2
       (replicate 1000 \<lparr>fe_student_id = ''S0'', fe_embeddings = [[0, 1]]\<rparr>
        @ [\<lparr>fe_student_id = ''S1'', fe_embeddings = [[1, 0]]\<rparr>]) [[1, 0]] []))"
proof -
  have h: "''S1'' \<notin> fe_student_id ` set (take 1000
       (replicate 1000 \<lparr>fe_student_id = ''S0'', fe_embeddings = [[0, 1]]\<rparr>
        @ [\<lparr>fe_student_id = ''S1'', fe_embeddings = [[1, 0]]\<rparr>]))"
    by simp
  have e: "find_one [] ''S1'' ''2025-01-06'' = None"
    by (simp add: find_one_def)
  from snapshot_limit [of "replicate 1000 \<lparr>fe_student_id = ''S0'', fe_embeddings = [[0, 1]]\<rparr>
        @ [\<lparr>fe_student_id = ''S1'', fe_embeddings = [[1, 0]]\<rparr>]" Some "''2025-01-06''" 2
        "[[1, 0]]" "[]" "''S1''" "''2025-01-06''"] h e
  show ?thesis by metis
qed

section \<open>Facts about the sampler\<close>

lemma nth_filter_upt_Cons:
  "map (\<lambda>k. (x # xs) ! k) (filter P [0..<Suc n])
   = (if P 0 then [x] else []) @ map (\<lambda>k. xs ! k) (filter (\<lambda>k. P (Suc k)) [0..<n])"
proof -
  have "[0..<Suc n] = 0 # map Suc [0..<n]"
    by (simp add: upt_conv_Cons map_Suc_upt del: upt_Suc)
  then show ?thesis
    by (simp add: filter_map o_def del: upt_Suc)
qed

lemma forwarded_stream_loop:
  assumes "0 < stride"
  shows "forwarded (stream_loop stride url cap frame_count reads)
         = map (\<lambda>k. delivered reads ! k)
             (filter (\<lambda>k. Suc (frame_count + k) mod stride = 0) [0..<length (delivered reads)])"
  using assms
proof (induction stride url cap frame_count reads rule: stream_loop.induct)
  case (1 stride url cap frame_count)
  show ?case by simp
next
  case (2 stride url cap frame_count rest)
  then show ?case by simp
next
  case (3 stride url cap frame_count rest)
  show ?case by simp
next
  case (4 stride url cap frame_count frame rest)
  then show ?case
    by (simp add: nth_filter_upt_Cons del: upt_Suc)
qed

lemma sleeps_after_forward_stream_loop:
  "sleeps_after_forward (stream_loop stride url cap frame_count reads)"
  by (induction stride url cap frame_count reads rule: stream_loop.induct) simp_all

text \<open>
  Claim C5. For a stride \<open>N > 0\<close>, the frames forwarded are exactly the delivered
  frames whose running count (from 1) is a multiple of \<open>N\<close>, in order; every forwarded
  frame is followed at once by a sleep of one second; and the sampler of the source is
  the one with \<open>N = 30\<close>.
\<close>

theorem sampler_pacing:
  assumes "0 < stride"
  shows "forwarded (process_stream_stride stride url reads)
           = map (\<lambda>k. delivered reads ! k)
               (filter (\<lambda>k. Suc k mod stride = 0) [0..<length (delivered reads)])
       \<and> sleeps_after_forward (process_stream_stride stride url reads)
       \<and> process_stream url reads = process_stream_stride 30 url reads"
  using forwarded_stream_loop [OF assms, of url 0 0 reads]
    sleeps_after_forward_stream_loop [of stride url 0 0 reads]
  by (simp add: process_stream_stride_def process_stream_def frame_stride_def)

text \<open>Stride 3 and nine delivered frames: frames 3, 6 and 9 are forwarded.\<close>

theorem sampler_pacing_witness:
  "(0 :: nat) < 3
   \<and> forwarded (process_stream_stride 3 ''rtsp://cam''
        [Frame 1, Frame 2, Frame 3, Frame 4, Frame 5, Frame 6, Frame 7, Frame 8, Frame (9 :: nat)])
      = [3, 6, 9]
   \<and> sleeps_after_forward (process_stream_stride 3 ''rtsp://cam''
        [Frame 1, Frame 2, Frame 3, Frame 4, Frame 5, Frame 6, Frame 7, Frame 8, Frame (9 :: nat)])"
proof -
  have pos: "(0 :: nat) < 3" by simp
  have idx: "filter (\<lambda>k. Suc k mod 3 = 0) [0..<9] = [2, 5, 8]"
    by code_simp
  from sampler_pacing [OF pos, of "''rtsp://cam''"
      "[Frame 1, Frame 2, Frame 3, Frame 4, Frame 5, Frame 6, Frame 7, Frame 8, Frame (9 :: nat)]"]
    idx
  show ?thesis by simp
qed

lemma reads_made_stream_loop:
  assumes "ReadRaises \<notin> set reads" and "0 < stride"
  shows "reads_made (stream_loop stride url cap frame_count reads) = length reads"
  using assms
  by (induction stride url cap frame_count reads rule: stream_loop.induct) simp_all

lemma backoffs_stream_loop:
  assumes "ReadRaises \<notin> set reads" and "0 < stride"
  shows "backoffs (stream_loop stride url cap frame_count reads) = count_list reads NoFrame"
  using assms
  by (induction stride url cap frame_count reads rule: stream_loop.induct) simp_all

lemma opened_urls_stream_loop:
  assumes "ReadRaises \<notin> set reads" and "0 < stride"
  shows "opened_urls (stream_loop stride url cap frame_count reads)
         = replicate (count_list reads NoFrame) url"
  using assms
  by (induction stride url cap frame_count reads rule: stream_loop.induct) simp_all

lemma delivered_map_Frame: "delivered (map Frame frames) = frames"
  by (induction frames) simp_all

text \<open>
  Claim C6. A failed read does not end the loop. In a run where no exception is
  raised, every read of the run is made, each failed read is followed by a sleep of
  5 seconds and a reopening, and every handle is opened on the same URL. After a
  failed read the loop goes on with a new handle and the same frame count; two failed
  reads in front change nothing in what is forwarded; and when 30 frames follow them,
  the 30th is forwarded.
\<close>

theorem reconnect_after_failed_read:
  "(ReadRaises \<notin> set (reads :: 'f read_result list) \<longrightarrow>
      reads_made (process_stream url reads) = length reads
    \<and> backoffs (process_stream url reads) = count_list reads NoFrame
    \<and> opened_urls (process_stream url reads) = replicate (Suc (count_list reads NoFrame)) url)
   \<and> process_stream url (NoFrame # reads)
       = Open url 0 # Read 0 # Sleep 5 # Open url 1 # stream_loop frame_stride url 1 0 reads
   \<and> forwarded (process_stream url (NoFrame # NoFrame # reads))
       = forwarded (process_stream url reads)
   \<and> (length (frames :: 'f list) = 30 \<longrightarrow>
        forwarded (process_stream url (NoFrame # NoFrame # map Frame frames)) = [last frames])"
proof -
  have pos: "0 < frame_stride" by (simp add: frame_stride_def)
  have consumed: "ReadRaises \<notin> set reads \<longrightarrow>
      reads_made (process_stream url reads) = length reads
    \<and> backoffs (process_stream url reads) = count_list reads NoFrame
    \<and> opened_urls (process_stream url reads) = replicate (Suc (count_list reads NoFrame)) url"
    using reads_made_stream_loop [OF _ pos, of reads url 0 0]
      backoffs_stream_loop [OF _ pos, of reads url 0 0]
      opened_urls_stream_loop [OF _ pos, of reads url 0 0]
    by (simp add: process_stream_def process_stream_stride_def)
  have step: "process_stream url (NoFrame # reads)
       = Open url 0 # Read 0 # Sleep 5 # Open url 1 # stream_loop frame_stride url 1 0 reads"
    by (simp add: process_stream_def process_stream_stride_def)
  have same: "forwarded (process_stream url (NoFrame # NoFrame # reads))
       = forwarded (process_stream url reads)" for reads :: "'f read_result list"
    using forwarded_stream_loop [OF pos, of url 0 0 reads]
      forwarded_stream_loop [OF pos, of url 2 0 reads]
    by (simp add: process_stream_def process_stream_stride_def numeral_2_eq_2)
  have thirty: "length frames = 30 \<longrightarrow>
        forwarded (process_stream url (NoFrame # NoFrame # map Frame frames)) = [last frames]"
  proof
    assume len: "length frames = 30"
    have idx: "filter (\<lambda>k. Suc k mod 30 = 0) [0..<30] = [29]"
      by code_simp
    have "forwarded (process_stream url (map Frame frames)) = [frames ! 29]"
      using forwarded_stream_loop [OF pos, of url 0 0 "map Frame frames"] len idx
      by (simp add: process_stream_def process_stream_stride_def delivered_map_Frame
          frame_stride_def)
    moreover from len have "frames \<noteq> []" by auto
    with len have "last frames = frames ! 29"
      by (simp add: last_conv_nth)
    ultimately show "forwarded (process_stream url (NoFrame # NoFrame # map Frame frames))
        = [last frames]"
      using same [of "map Frame frames"] by simp
  qed
  from consumed step same thirty show ?thesis by blast
qed

text \<open>Two failed reads, then frames.\<close>

theorem reconnect_after_failed_read_witness:
  "ReadRaises \<notin> set [NoFrame, NoFrame, Frame (1 :: nat)]
   \<and> reads_made (process_stream ''rtsp://cam'' [NoFrame, NoFrame, Frame (1 :: nat)]) = 3
   \<and> backoffs (process_stream ''rtsp://cam'' [NoFrame, NoFrame, Frame (1 :: nat)]) = 2
   \<and> opened_urls (process_stream ''rtsp://cam'' [NoFrame, NoFrame, Frame (1 :: nat)])
       = [''rtsp://cam'', ''rtsp://cam'', ''rtsp://cam'']
   \<and> length [1..<31] = 30
   \<and> forwarded (process_stream ''rtsp://cam'' (NoFrame # NoFrame # map Frame [1..<31])) = [30]"
proof -
  have h: "ReadRaises \<notin> set [NoFrame, NoFrame, Frame (1 :: nat)]" by simp
  have l: "length [1..<31] = 30" by simp
  have e: "last [1..<31] = 30" by simp
  have c: "count_list [NoFrame, NoFrame, Frame (1 :: nat)] NoFrame = 2" by simp
  from reconnect_after_failed_read [of "[NoFrame, NoFrame, Frame 1]" "''rtsp://cam''" "[1..<31]"]
    h l e c
  show ?thesis by (simp add: numeral_3_eq_3 numeral_2_eq_2)
qed

text \<open>
  Claim C7. One failed read, then the task is stopped: the handle opened first is
  replaced by a second one without a call of \<open>release\<close>, and the \<open>finally\<close>
  block releases the second one only.
\<close>

theorem retry_leaves_handle_unreleased:
  "process_stream ''rtsp://cam'' [NoFrame :: nat read_result]
     = [Open ''rtsp://cam'' 0, Read 0, Sleep 5, Open ''rtsp://cam'' 1, Release 1]
   \<and> opened (process_stream ''rtsp://cam'' [NoFrame :: nat read_result]) = [0, 1]
   \<and> released (process_stream ''rtsp://cam'' [NoFrame :: nat read_result]) = [1]"
  by (simp add: process_stream_def process_stream_stride_def)

end
